theory Spec2Isabelle
  imports Main
begin

section \<open>Strings and the two substitutions of \<open>_to_snake_case\<close>\<close>

text \<open>
  A Python \<open>str\<close> is a sequence of code points. Characters are HOL's \<open>char\<close>, read as
  the code points U+0000 to U+00FF; wider code points are outside the model. The
  character classes are the ones the source's patterns spell out: \<open>[A-Z]\<close>, \<open>[a-z]\<close>,
  \<open>[0-9]\<close>, and \<open>.\<close>, which (no DOTALL flag is given) is every character but the line feed.
\<close>

definition is_upper :: "char \<Rightarrow> bool" where
  "is_upper c \<longleftrightarrow> (65::nat) \<le> of_char c \<and> of_char c \<le> (90::nat)"

definition is_lower :: "char \<Rightarrow> bool" where
  "is_lower c \<longleftrightarrow> (97::nat) \<le> of_char c \<and> of_char c \<le> (122::nat)"

definition is_digit :: "char \<Rightarrow> bool" where
  "is_digit c \<longleftrightarrow> (48::nat) \<le> of_char c \<and> of_char c \<le> (57::nat)"

definition is_newline :: "char \<Rightarrow> bool" where
  "is_newline c \<longleftrightarrow> of_char c = (10::nat)"

text \<open>
  \<open>str.lower()\<close> on one code point below U+0100: the letters A to Z, and the Latin-1
  capitals U+00C0 to U+00DE without the multiplication sign U+00D7, move up by 32.
\<close>

definition lower_char :: "char \<Rightarrow> char" where
  "lower_char c =
     (let n = (of_char c :: nat)
      in if (65 \<le> n \<and> n \<le> 90) \<or> (192 \<le> n \<and> n \<le> 222 \<and> n \<noteq> 215)
         then char_of (n + 32) else c)"

definition lower :: "string \<Rightarrow> string" where
  "lower s = map lower_char s"

text \<open>
  \<open>re.sub("(.)([A-Z][a-z]+)", r"\1_\2", name)\<close>: the string is scanned from the left. A
  match at the current position is one character that is no line feed, one capital and
  the longest run of at least one small letter; it is replaced by the same text with an
  underscore after its first character, and the scan goes on behind the match. Where
  nothing matches, the character is copied and the scan moves one position on.
\<close>

function sub1 :: "string \<Rightarrow> string" where
  "sub1 (c # u # l # rest) =
     (if \<not> is_newline c \<and> is_upper u \<and> is_lower l
      then c # CHR ''_'' # u # takeWhile is_lower (l # rest) @ sub1 (dropWhile is_lower (l # rest))
      else c # sub1 (u # l # rest))"
| "sub1 [c, u] = [c, u]"
| "sub1 [c] = [c]"
| "sub1 [] = []"
  by pat_completeness auto
termination
  by (relation "measure length")
     (auto simp: less_Suc_eq_le intro: le_trans[OF length_dropWhile_le])

text \<open>
  \<open>re.sub("([a-z0-9])([A-Z])", r"\1_\2", s1)\<close>: a match is a small letter or digit
  followed by a capital; both are consumed.
\<close>

fun sub2 :: "string \<Rightarrow> string" where
  "sub2 (a # b # rest) =
     (if (is_lower a \<or> is_digit a) \<and> is_upper b
      then a # CHR ''_'' # b # sub2 rest
      else a # sub2 (b # rest))"
| "sub2 [a] = [a]"
| "sub2 [] = []"

definition to_snake_case :: "string \<Rightarrow> string" where
  "to_snake_case name = (let s1 = sub1 name in lower (sub2 s1))"

subsection \<open>The conversion as the specification words it\<close>

text \<open>
  The specification describes the result position by position: a separator goes before
  a capital that follows a small letter or a digit, and before a capital that is
  followed by a small letter and preceded by a character; then everything is lowered.
  \<open>separate any p s\<close> walks \<open>s\<close> with the preceding character \<open>p\<close>; \<open>any\<close> says which
  preceding characters count for the second rule.
\<close>

fun separate :: "(char \<Rightarrow> bool) \<Rightarrow> char \<Rightarrow> string \<Rightarrow> string" where
  "separate any p [] = []"
| "separate any p (c # rest) =
     (if is_upper c \<and> (is_lower p \<or> is_digit p \<or> (any p \<and> (case rest of [] \<Rightarrow> False | l # _ \<Rightarrow> is_lower l)))
      then CHR ''_'' # c # separate any c rest
      else c # separate any c rest)"

definition snake_spec :: "(char \<Rightarrow> bool) \<Rightarrow> string \<Rightarrow> string" where
  "snake_spec any name = (case name of [] \<Rightarrow> [] | c # rest \<Rightarrow> lower (c # separate any c rest))"

definition any_char :: "char \<Rightarrow> bool" where
  "any_char c \<longleftrightarrow> True"

definition not_newline :: "char \<Rightarrow> bool" where
  "not_newline c \<longleftrightarrow> \<not> is_newline c"

section \<open>JSON values\<close>

text \<open>
  What \<open>response.json()\<close> returns. A float is only ever copied. A \<open>dict\<close> keeps its items
  in insertion order, so it is the list of its items; in a dict the keys are distinct.
\<close>

datatype pyfloat = Finite int int | PosInf | NegInf | NaN

datatype json =
    JNull
  | JBool bool
  | JInt int
  | JFloat pyfloat
  | JStr string
  | JList "json list"
  | JDict "(string \<times> json) list"

text \<open>\<open>d[k] = v\<close>: an existing key keeps its place and gets the new value, a new key goes last.\<close>

fun setitem :: "('k \<times> 'v) list \<Rightarrow> 'k \<Rightarrow> 'v \<Rightarrow> ('k \<times> 'v) list" where
  "setitem [] k v = [(k, v)]"
| "setitem ((k', v') # d) k v = (if k' = k then (k', v) # d else (k', v') # setitem d k v)"

text \<open>A dict comprehension \<open>{k: v for ...}\<close>: the items are stored one after the other.\<close>

definition dict_comp :: "('k \<times> 'v) list \<Rightarrow> ('k \<times> 'v) list" where
  "dict_comp items = foldl (\<lambda>d (k, v). setitem d k v) [] items"




section \<open>Records, exceptions and the two helpers\<close>

text \<open>
  The value of a field of a constructed record: a JSON value copied as it is, an instance
  of a dataclass (its class name and its attributes in declaration order), or a list.
\<close>

datatype pyval =
    Raw json
  | Instance string "(string \<times> pyval) list"
  | PyList "pyval list"

text \<open>
  What can be passed as \<open>model\<close>, and what annotates a field: a dataclass (its name and,
  per field in declaration order, the name, the annotation and the default if there is
  one), an instance of a dataclass (the name and the fields of its class; the class defines
  no \<open>__call__\<close>), a \<open>list[X]\<close>, or any other object (\<open>int\<close>, \<open>str\<close>, \<open>float\<close>, \<open>bool\<close>, \<open>dict\<close>, ...).
\<close>

datatype pytype =
    Dataclass string "(string \<times> pytype \<times> pyval option) list"
  | InstanceOf string "(string \<times> pytype \<times> pyval option) list"
  | ListOf pytype
  | Other string

text \<open>
  The exceptions. Python raises \<open>TypeError\<close> at the guard of \<open>_from_dict\<close>, in the generated
  \<open>__init__\<close> of a dataclass called without a required argument, and when \<open>model(**kwargs)\<close>
  calls an object that is not callable; they differ in their message, which is kept: the
  offending model, the class and the missing names, or the class of the object.
\<close>

datatype type_error =
    ExpectedDataclass pytype
  | MissingArguments string "string list"
  | NotCallable string
  | NotIterable

datatype exc =
    TypeError type_error
  | AttributeError
  | RecursionError
  | HTTPError int string
  | RequestException string
  | OtherException string
  | SongleApiException int string

subsection \<open>\<open>_convert_keys_to_snake_case\<close>\<close>

text \<open>
  A comprehension evaluates its elements in order; the first exception ends it.
\<close>

fun collect :: "('e + 'a) list \<Rightarrow> 'e + 'a list" where
  "collect [] = Inr []"
| "collect (r # rs) =
     (case r of
        Inl e \<Rightarrow> Inl e
      | Inr x \<Rightarrow> (case collect rs of Inl e \<Rightarrow> Inl e | Inr xs \<Rightarrow> Inr (x # xs)))"

text \<open>
  The interpreter bounds the depth of its call stack (\<open>sys.getrecursionlimit()\<close>, 1000 frames
  unless it is changed), and the call that would exceed the bound raises \<open>RecursionError\<close>.
  \<open>_convert_keys_to_snake_case\<close> calls itself, inside its two comprehensions, once per level
  of nesting of \<open>data\<close>, and nothing in it catches the exception. \<open>room\<close> is the room the stack
  has left when the function is called, counted in nested calls of the function: with no
  room the call itself raises. The calls of \<open>_to_snake_case\<close> and of \<open>re.sub\<close> have returned
  before the next level is entered; they are taken to have the room they need.
\<close>

fun convert_keys_to_snake_case :: "nat \<Rightarrow> json \<Rightarrow> exc + json" where
  "convert_keys_to_snake_case 0 data = Inl RecursionError"
| "convert_keys_to_snake_case (Suc room) (JDict kvs) =
     (case collect (map (\<lambda>(k, v).
             case convert_keys_to_snake_case room v of
               Inl e \<Rightarrow> Inl e
             | Inr v' \<Rightarrow> Inr (to_snake_case k, v')) kvs) of
        Inl e \<Rightarrow> Inl e
      | Inr items \<Rightarrow> Inr (JDict (dict_comp items)))"
| "convert_keys_to_snake_case (Suc room) (JList xs) =
     (case collect (map (convert_keys_to_snake_case room) xs) of
        Inl e \<Rightarrow> Inl e
      | Inr ys \<Rightarrow> Inr (JList ys))"
| "convert_keys_to_snake_case (Suc room) data = Inr data"

text \<open>
  The number of nested calls that the walk of a value makes, and a value inside \<open>n\<close> more
  arrays.
\<close>

fun depth :: "json \<Rightarrow> nat" where
  "depth (JDict kvs) = Suc (fold max (map (\<lambda>(k, v). depth v) kvs) 0)"
| "depth (JList xs) = Suc (fold max (map depth xs) 0)"
| "depth data = Suc 0"

fun nested :: "nat \<Rightarrow> json \<Rightarrow> json" where
  "nested 0 v = v"
| "nested (Suc n) v = JList [nested n v]"

text \<open>
  The value that the walk returns when the stack has room for it (lemma \<open>convert_keys_room\<close>
  below).
\<close>

fun converted :: "json \<Rightarrow> json" where
  "converted (JDict kvs) = JDict (dict_comp (map (\<lambda>(k, v). (to_snake_case k, converted v)) kvs))"
| "converted (JList xs) = JList (map converted xs)"
| "converted data = data"

subsection \<open>\<open>_from_dict\<close>\<close>

text \<open>
  \<open>dataclasses.is_dataclass(obj)\<close> is true of a dataclass and of an instance of a dataclass.
  The test \<open>isinstance(field_type, type) and dataclasses.is_dataclass(field_type)\<close> is true
  of a dataclass only.
\<close>

definition is_dataclass :: "pytype \<Rightarrow> bool" where
  "is_dataclass t = (case t of Dataclass _ _ \<Rightarrow> True | InstanceOf _ _ \<Rightarrow> True | _ \<Rightarrow> False)"

definition is_dataclass_type :: "pytype \<Rightarrow> bool" where
  "is_dataclass_type t = (case t of Dataclass _ _ \<Rightarrow> True | _ \<Rightarrow> False)"

text \<open>\<open>{f.name: f.type for f in dataclasses.fields(model)}\<close>\<close>

definition field_types :: "(string \<times> pytype \<times> pyval option) list \<Rightarrow> (string \<times> pytype) list" where
  "field_types fields = dict_comp (map (\<lambda>(n, t, d). (n, t)) fields)"

text \<open>
  \<open>origin is list and args and dataclasses.is_dataclass(args[0])\<close>: the element type when
  the test succeeds.
\<close>

definition list_element_type :: "pytype \<Rightarrow> pytype option" where
  "list_element_type field_type =
     (case field_type of
        ListOf a \<Rightarrow> if is_dataclass a then Some a else None
      | _ \<Rightarrow> None)"

text \<open>
  The \<open>__init__\<close> that \<open>@dataclass\<close> generates, called with keyword arguments only: a field
  takes its argument, else its default; fields with neither are reported together.
\<close>

definition missing_arguments ::
  "(string \<times> pytype \<times> pyval option) list \<Rightarrow> (string \<times> pyval) list \<Rightarrow> string list" where
  "missing_arguments fields kwargs =
     map fst (filter (\<lambda>(n, t, d). map_of kwargs n = None \<and> d = None) fields)"

definition attribute :: "(string \<times> pyval) list \<Rightarrow> string \<times> pytype \<times> pyval option \<Rightarrow> (string \<times> pyval) option" where
  "attribute kwargs f =
     (case f of (n, t, d) \<Rightarrow>
        (case map_of kwargs n of
           Some v \<Rightarrow> Some (n, v)
         | None \<Rightarrow> map_option (Pair n) d))"

definition dataclass_init ::
  "string \<Rightarrow> (string \<times> pytype \<times> pyval option) list \<Rightarrow> (string \<times> pyval) list \<Rightarrow> exc + pyval" where
  "dataclass_init cls fields kwargs =
     (if missing_arguments fields kwargs \<noteq> []
      then Inl (TypeError (MissingArguments cls (missing_arguments fields kwargs)))
      else Inr (Instance cls (List.map_filter (attribute kwargs) fields)))"

text \<open>
  \<open>_from_dict\<close>, with its loop over \<open>data.items()\<close> (\<open>from_dict_loop\<close>, carrying \<open>kwargs\<close>) and
  its list comprehension (\<open>from_dict_each\<close>). \<open>data.items()\<close> raises \<open>AttributeError\<close> on
  every value that is not a dict. \<open>dataclasses.fields\<close> gives the fields of the class for a
  dataclass and for an instance of it; \<open>model(**kwargs)\<close> is the generated \<open>__init__\<close> for a
  dataclass, and raises \<open>TypeError\<close> for an instance, which cannot be called.
\<close>

function from_dict :: "pytype \<Rightarrow> json \<Rightarrow> exc + pyval"
  and from_dict_loop ::
    "(string \<times> pytype \<times> pyval option) list \<Rightarrow> (string \<times> json) list \<Rightarrow> (string \<times> pyval) list
       \<Rightarrow> exc + (string \<times> pyval) list"
  and from_dict_each :: "pytype \<Rightarrow> json list \<Rightarrow> exc + pyval list"
where
  "from_dict model data =
     (if \<not> is_dataclass model then Inl (TypeError (ExpectedDataclass model))
      else
        (case model of
           Dataclass cls fields \<Rightarrow>
             (case data of
                JDict items \<Rightarrow>
                  (case from_dict_loop fields items [] of
                     Inl e \<Rightarrow> Inl e
                   | Inr kwargs \<Rightarrow> dataclass_init cls fields kwargs)
              | _ \<Rightarrow> Inl AttributeError)
         | InstanceOf cls fields \<Rightarrow>
             (case data of
                JDict items \<Rightarrow>
                  (case from_dict_loop fields items [] of
                     Inl e \<Rightarrow> Inl e
                   | Inr kwargs \<Rightarrow> Inl (TypeError (NotCallable cls)))
              | _ \<Rightarrow> Inl AttributeError)
         | _ \<Rightarrow> Inl (TypeError (ExpectedDataclass model))))"
| "from_dict_loop fields [] kwargs = Inr kwargs"
| "from_dict_loop fields ((name, value) # rest) kwargs =
     (case map_of (field_types fields) name of
        None \<Rightarrow> from_dict_loop fields rest kwargs
      | Some field_type \<Rightarrow>
          (case list_element_type field_type of
             Some element_type \<Rightarrow>
               (case value of
                  JList vs \<Rightarrow>
                    (case from_dict_each element_type vs of
                       Inl e \<Rightarrow> Inl e
                     | Inr xs \<Rightarrow> from_dict_loop fields rest (setitem kwargs name (PyList xs)))
                | _ \<Rightarrow> from_dict_loop fields rest kwargs)
           | None \<Rightarrow>
               if is_dataclass_type field_type then
                 (case value of
                    JDict d \<Rightarrow>
                      (case from_dict field_type (JDict d) of
                         Inl e \<Rightarrow> Inl e
                       | Inr x \<Rightarrow> from_dict_loop fields rest (setitem kwargs name x))
                  | _ \<Rightarrow> from_dict_loop fields rest kwargs)
               else from_dict_loop fields rest (setitem kwargs name (Raw value))))"
| "from_dict_each model [] = Inr []"
| "from_dict_each model (item # items) =
     (case from_dict model item of
        Inl e \<Rightarrow> Inl e
      | Inr x \<Rightarrow>
          (case from_dict_each model items of
             Inl e \<Rightarrow> Inl e
           | Inr xs \<Rightarrow> Inr (x # xs)))"
  by pat_completeness auto
termination
  by (relation "measure (\<lambda>a. case a of
          Inl (model, data) \<Rightarrow> size data
        | Inr (Inl (fields, items, kwargs)) \<Rightarrow> size_list (size_prod (\<lambda>_. 0) size) items
        | Inr (Inr (model, items)) \<Rightarrow> size_list size items)")
     auto

declare from_dict.simps [simp del]

text \<open>The record types of the service, as \<open>songle.py\<close> declares them (no field has a default).\<close>

definition Artist :: pytype where
  "Artist = Dataclass ''Artist'' [(''id'', Other ''int'', None), (''name'', Other ''str'', None)]"

definition Song :: pytype where
  "Song = Dataclass ''Song''
     [(''id'', Other ''int'', None), (''title'', Other ''str'', None),
      (''url'', Other ''str'', None), (''permalink'', Other ''str'', None),
      (''artist'', Artist, None), (''duration'', Other ''float'', None),
      (''code'', Other ''str'', None), (''rms_amplitude'', Other ''float'', None),
      (''created_at'', Other ''str'', None), (''updated_at'', Other ''str'', None),
      (''recognized_at'', Other ''str'', None)]"

definition Beat :: pytype where
  "Beat = Dataclass ''Beat''
     [(''index'', Other ''int'', None), (''start'', Other ''int'', None),
      (''count'', Other ''int'', None), (''position'', Other ''int'', None),
      (''bpm'', Other ''int'', None)]"

definition BeatInfo :: pytype where
  "BeatInfo = Dataclass ''BeatInfo'' [(''beats'', ListOf Beat, None)]"






definition Repeat :: pytype where
  "Repeat = Dataclass ''Repeat''
     [(''index'', Other ''int'', None), (''start'', Other ''int'', None),
      (''duration'', Other ''int'', None)]"

definition ChorusSegment :: pytype where
  "ChorusSegment = Dataclass ''ChorusSegment''
     [(''index'', Other ''int'', None), (''is_chorus'', Other ''bool'', None),
      (''duration'', Other ''int'', None), (''repeats'', ListOf Repeat, None)]"

definition RepeatSegment :: pytype where
  "RepeatSegment = Dataclass ''RepeatSegment''
     [(''index'', Other ''int'', None), (''is_chorus'', Other ''bool'', None),
      (''duration'', Other ''int'', None), (''repeats'', ListOf Repeat, None)]"

definition ChorusInfo :: pytype where
  "ChorusInfo = Dataclass ''ChorusInfo''
     [(''chorus_segments'', ListOf ChorusSegment, None),
      (''repeat_segments'', ListOf RepeatSegment, None)]"

text \<open>Reading an attribute of a constructed record.\<close>

definition getattr :: "pyval \<Rightarrow> string \<Rightarrow> pyval option" where
  "getattr obj name = (case obj of Instance cls attrs \<Rightarrow> map_of attrs name | _ \<Rightarrow> None)"

text \<open>\<open>isinstance(value, dict)\<close> and \<open>isinstance(value, list)\<close>.\<close>

definition is_dict :: "json \<Rightarrow> bool" where
  "is_dict value = (case value of JDict _ \<Rightarrow> True | _ \<Rightarrow> False)"

definition is_list :: "json \<Rightarrow> bool" where
  "is_list value = (case value of JList _ \<Rightarrow> True | _ \<Rightarrow> False)"

text \<open>
  The exceptions that can arise once the guard of \<open>_from_dict\<close> is passed: the \<open>TypeError\<close>
  of an \<open>__init__\<close> that misses arguments, the \<open>TypeError\<close> of calling an instance, and the
  \<open>AttributeError\<close> of \<open>data.items()\<close>.
\<close>

definition construction_error :: "exc \<Rightarrow> bool" where
  "construction_error e =
     (case e of
        TypeError (MissingArguments cls names) \<Rightarrow> True
      | TypeError (NotCallable cls) \<Rightarrow> True
      | AttributeError \<Rightarrow> True
      | _ \<Rightarrow> False)"

section \<open>The client \<open>Songle\<close>\<close>
























section \<open>Properties of \<open>_to_snake_case\<close>\<close>

lemma upper_not_lower: "is_upper c \<Longrightarrow> \<not> is_lower c"
  by (simp add: is_upper_def is_lower_def)

lemma upper_not_digit: "is_upper c \<Longrightarrow> \<not> is_digit c"
  by (simp add: is_upper_def is_digit_def)

lemma underscore_class:
  "\<not> is_upper CHR ''_''" "\<not> is_lower CHR ''_''" "\<not> is_digit CHR ''_''"
  by (simp_all add: is_upper_def is_lower_def is_digit_def)

lemma sub2_separate:
  "sub2 (p # xs) = p # separate (\<lambda>_. False) p xs"
proof (induction "p # xs" arbitrary: p xs rule: sub2.induct)
  case (1 a b rest)
  show ?case
  proof (cases "(is_lower a \<or> is_digit a) \<and> is_upper b")
    case True
    then have ub: "is_upper b" by simp
    have "sub2 rest = separate (\<lambda>_. False) b rest"
    proof (cases rest)
      case Nil
      then show ?thesis by simp
    next
      case (Cons r rs)
      with 1(1)[OF True Cons] ub show ?thesis
        by (simp add: upper_not_lower upper_not_digit)
    qed
    with True show ?thesis by simp
  next
    case False
    with 1(2)[OF False] show ?thesis by auto
  qed
next
  case (2 a)
  then show ?case by simp
qed

lemma separate_run:
  "\<forall>x\<in>set xs. \<not> is_upper x \<Longrightarrow>
     separate any p (xs @ ys) = xs @ separate any (last (p # xs)) ys"
  by (induction xs arbitrary: p) auto

lemma sub1_head: "\<exists>t. sub1 (c # xs) = c # t"
proof (cases xs)
  case Nil
  then show ?thesis by simp
next
  case (Cons u ys)
  then show ?thesis by (cases ys) auto
qed

lemma takeWhile_lower_no_upper: "\<forall>x\<in>set (takeWhile is_lower xs). \<not> is_upper x"
  by (auto dest: set_takeWhileD upper_not_lower)

lemma last_run_lower: "is_lower l \<Longrightarrow> is_lower (last (l # takeWhile is_lower rest))"
  by (metis last_in_set list.distinct(1) set_ConsD set_takeWhileD)

lemma dropWhile_head: "dropWhile is_lower rest = d # ds \<Longrightarrow> \<not> is_lower d"
  by (metis hd_dropWhile list.distinct(1) list.sel(1))

lemma sub2_sub1:
  "sub2 (sub1 (c # xs)) = c # separate not_newline c xs"
proof (induction "c # xs" arbitrary: c xs rule: sub1.induct)
  case (1 c u l rest)
  show ?case
  proof (cases "\<not> is_newline c \<and> is_upper u \<and> is_lower l")
    case True
    define tw where "tw = takeWhile is_lower rest"
    define dw where "dw = dropWhile is_lower rest"
    define lc where "lc = last (l # tw)"
    have rest: "rest = tw @ dw" by (simp add: tw_def dw_def)
    have lc: "is_lower lc" using True last_run_lower by (simp add: lc_def tw_def)
    have run: "\<forall>x\<in>set (l # tw). \<not> is_upper x"
      using True takeWhile_lower_no_upper[of rest] by (auto simp: tw_def dest: upper_not_lower)
    have s1: "sub1 (c # u # l # rest) = c # CHR ''_'' # u # (l # tw) @ sub1 dw"
      using True by (simp add: tw_def dw_def)
    have tail: "separate (\<lambda>_. False) lc (sub1 dw) = separate not_newline lc dw"
    proof (cases dw)
      case Nil
      then show ?thesis by simp
    next
      case (Cons d ds)
      have "dropWhile is_lower (l # rest) = d # ds" using Cons True by (simp add: dw_def)
      from 1(1)[OF True this] have ih: "sub2 (sub1 (d # ds)) = d # separate not_newline d ds" .
      obtain t where t: "sub1 (d # ds) = d # t" using sub1_head by blast
      from ih t have eq: "separate (\<lambda>_. False) d t = separate not_newline d ds"
        by (simp add: sub2_separate)
      show ?thesis using Cons t eq lc by simp
    qed
    have lhs: "sub2 (sub1 (c # u # l # rest)) = c # CHR ''_'' # u # (l # tw) @ separate (\<lambda>_. False) lc (sub1 dw)"
      unfolding s1 sub2_separate
      using separate_run[OF run, of "\<lambda>_. False" u "sub1 dw"] True
      by (simp add: underscore_class lc_def upper_not_lower upper_not_digit)
    have rhs: "c # separate not_newline c (u # l # rest) = c # CHR ''_'' # u # (l # tw) @ separate not_newline lc dw"
      using separate_run[OF run, of not_newline u dw] True
      by (simp add: rest lc_def not_newline_def upper_not_lower)
    show ?thesis using lhs rhs tail by simp
  next
    case False
    from 1(2)[OF False] have ih: "sub2 (sub1 (u # l # rest)) = u # separate not_newline u (l # rest)" .
    obtain t where t: "sub1 (u # l # rest) = u # t" using sub1_head by blast
    from ih t have eq: "separate (\<lambda>_. False) u t = separate not_newline u (l # rest)"
      by (simp add: sub2_separate)
    have "sub1 (c # u # l # rest) = c # u # t" using False t by auto
    then have "sub2 (sub1 (c # u # l # rest)) = c # separate (\<lambda>_. False) c (u # t)"
      by (simp only: sub2_separate)
    with eq False show ?thesis by (auto simp: not_newline_def)
  qed
next
  case (2 c u)
  then show ?case by (simp add: not_newline_def)
next
  case (3 c)
  then show ?case by simp
qed

lemma to_snake_case_spec: "to_snake_case name = snake_spec not_newline name"
proof (cases name)
  case Nil
  then show ?thesis by (simp add: to_snake_case_def snake_spec_def lower_def)
next
  case (Cons c xs)
  then show ?thesis by (simp add: to_snake_case_def snake_spec_def sub2_sub1 del: sub1.simps separate.simps)
qed

text \<open>
  Claim C2, as amended. For every string, \<open>_to_snake_case\<close> puts a separator before each
  capital \<open>[A-Z]\<close> that follows a small letter \<open>[a-z]\<close> or a digit, and before each capital
  that is followed by a small letter and preceded by a character other than the line
  feed, and lowers the whole result: it equals \<open>snake_spec not_newline\<close>. It maps
  \<open>startedAt\<close>, \<open>createdAt\<close>, \<open>revisionId\<close> and \<open>isChorus\<close> to \<open>started_at\<close>, \<open>created_at\<close>,
  \<open>revision_id\<close> and \<open>is_chorus\<close>.
\<close>

theorem to_snake_case_separators:
  "to_snake_case name = snake_spec not_newline name
   \<and> to_snake_case ''startedAt'' = ''started_at''
   \<and> to_snake_case ''createdAt'' = ''created_at''
   \<and> to_snake_case ''revisionId'' = ''revision_id''
   \<and> to_snake_case ''isChorus'' = ''is_chorus''"
proof -
  have "to_snake_case ''startedAt'' = ''started_at''" by code_simp
  moreover have "to_snake_case ''createdAt'' = ''created_at''" by code_simp
  moreover have "to_snake_case ''revisionId'' = ''revision_id''" by code_simp
  moreover have "to_snake_case ''isChorus'' = ''is_chorus''" by code_simp
  ultimately show ?thesis using to_snake_case_spec by blast
qed

theorem to_snake_case_separators_witness:
  "to_snake_case ''HTTPResponse2Code'' = ''http_response2_code''
   \<and> snake_spec not_newline ''HTTPResponse2Code'' = ''http_response2_code''"
proof -
  have "snake_spec not_newline ''HTTPResponse2Code'' = ''http_response2_code''" by code_simp
  with to_snake_case_separators[of "''HTTPResponse2Code''"] show ?thesis by simp
qed

text \<open>
  Claim C2 as it is worded lets any preceding character count. A capital followed by a
  small letter and preceded by a line feed gets no separator, since \<open>.\<close> does not match
  the line feed.
\<close>

theorem to_snake_case_newline_counterexample:
  "to_snake_case [CHR 0x0A, CHR ''A'', CHR ''b''] = [CHR 0x0A, CHR ''a'', CHR ''b'']
   \<and> snake_spec any_char [CHR 0x0A, CHR ''A'', CHR ''b''] = [CHR 0x0A, CHR ''_'', CHR ''a'', CHR ''b'']
   \<and> to_snake_case [CHR 0x0A, CHR ''A'', CHR ''b''] \<noteq> snake_spec any_char [CHR 0x0A, CHR ''A'', CHR ''b'']"
proof -
  have a: "to_snake_case [CHR 0x0A, CHR ''A'', CHR ''b''] = [CHR 0x0A, CHR ''a'', CHR ''b'']"
    by code_simp
  have b: "snake_spec any_char [CHR 0x0A, CHR ''A'', CHR ''b''] = [CHR 0x0A, CHR ''_'', CHR ''a'', CHR ''b'']"
    by code_simp
  show ?thesis unfolding a b by simp
qed

section \<open>Idempotence and the structure of \<open>_convert_keys_to_snake_case\<close>\<close>

lemma lower_char_not_upper: "\<not> is_upper (lower_char c)"
  by (auto simp: lower_char_def is_upper_def Let_def)

lemma lower_char_idem: "lower_char (lower_char c) = lower_char c"
  by (auto simp: lower_char_def Let_def)

lemma sub1_no_upper: "\<forall>c\<in>set s. \<not> is_upper c \<Longrightarrow> sub1 s = s"
  by (induction s rule: sub1.induct) auto

lemma sub2_no_upper: "\<forall>c\<in>set s. \<not> is_upper c \<Longrightarrow> sub2 s = s"
  by (induction s rule: sub2.induct) auto

lemma to_snake_case_no_upper: "\<forall>c\<in>set (to_snake_case s). \<not> is_upper c"
  by (simp add: to_snake_case_def lower_def lower_char_not_upper)

lemma to_snake_case_idem: "to_snake_case (to_snake_case s) = to_snake_case s"
proof -
  have "sub2 (sub1 (to_snake_case s)) = to_snake_case s"
    using to_snake_case_no_upper[of s] by (simp add: sub1_no_upper sub2_no_upper)
  then have "to_snake_case (to_snake_case s) = lower (to_snake_case s)"
    by (simp add: to_snake_case_def[of "to_snake_case s"])
  also have "\<dots> = to_snake_case s"
    by (simp add: to_snake_case_def lower_def lower_char_idem)
  finally show ?thesis .
qed

lemma setitem_keys:
  "map fst (setitem d k v) = (if k \<in> set (map fst d) then map fst d else map fst d @ [k])"
  by (induction d) force+

lemma setitem_key_set: "fst ` set (setitem d k v) = insert k (fst ` set d)"
  using arg_cong[OF setitem_keys[of d k v], of set] by auto

lemma setitem_new: "k \<notin> set (map fst d) \<Longrightarrow> setitem d k v = d @ [(k, v)]"
  by (induction d) auto

lemma map_of_setitem: "map_of (setitem d k v) = (map_of d)(k \<mapsto> v)"
  by (induction d) auto

lemma set_setitem: "set (setitem d k v) \<subseteq> insert (k, v) (set d)"
  by (induction d) (auto split: if_splits)

lemma distinct_setitem: "distinct (map fst d) \<Longrightarrow> distinct (map fst (setitem d k v))"
  by (simp add: setitem_keys)

lemma foldl_setitem_distinct:
  "distinct (map fst d) \<Longrightarrow> distinct (map fst (foldl (\<lambda>d (k, v). setitem d k v) d xs))"
  by (induction xs arbitrary: d) (auto simp: distinct_setitem)

lemma foldl_setitem_set:
  "set (foldl (\<lambda>d (k, v). setitem d k v) d xs) \<subseteq> set d \<union> set xs"
proof (induction xs arbitrary: d)
  case Nil
  then show ?case by simp
next
  case (Cons x xs)
  obtain k v where x: "x = (k, v)" by (cases x)
  from Cons[of "setitem d k v"] set_setitem[of d k v] show ?case
    by (auto simp: x)
qed

lemma foldl_setitem_keys:
  "fst ` set (foldl (\<lambda>d (k, v). setitem d k v) d xs) = fst ` set d \<union> fst ` set xs"
proof (induction xs arbitrary: d)
  case Nil
  then show ?case by simp
next
  case (Cons x xs)
  obtain k v where x: "x = (k, v)" by (cases x)
  show ?case unfolding x by (simp add: Cons.IH setitem_key_set)
qed


lemma foldl_setitem_fresh:
  "distinct (map fst (d @ xs)) \<Longrightarrow> foldl (\<lambda>d (k, v). setitem d k v) d xs = d @ xs"
proof (induction xs arbitrary: d)
  case Nil
  then show ?case by simp
next
  case (Cons x xs)
  obtain k v where x: "x = (k, v)" by (cases x)
  from Cons.prems have "k \<notin> set (map fst d)" by (auto simp: x)
  then have s: "setitem d k v = d @ [(k, v)]" by (rule setitem_new)
  from Cons.prems have "distinct (map fst ((d @ [(k, v)]) @ xs))" by (auto simp: x)
  from Cons.IH[OF this] show ?case by (simp add: x s)
qed

lemma dict_comp_distinct: "distinct (map fst (dict_comp xs))"
  by (simp add: dict_comp_def foldl_setitem_distinct)

lemma dict_comp_subset: "set (dict_comp xs) \<subseteq> set xs"
  using foldl_setitem_set[of "[]" xs] by (simp add: dict_comp_def)

lemma dict_comp_keys: "fst ` set (dict_comp xs) = fst ` set xs"
  using foldl_setitem_keys[of "[]" xs] by (simp add: dict_comp_def)


lemma dict_comp_id: "distinct (map fst xs) \<Longrightarrow> dict_comp xs = xs"
  using foldl_setitem_fresh[of "[]" xs] by (simp add: dict_comp_def)

lemma convert_keys_idem:
  "converted (converted v) = converted v"
proof (induction v rule: converted.induct)
  case (1 kvs)
  define kvs' where "kvs' = dict_comp (map (\<lambda>(k, v). (to_snake_case k, converted v)) kvs)"
  have fixed: "(\<lambda>(k, v). (to_snake_case k, converted v)) p = p" if "p \<in> set kvs'" for p
  proof -
    from that dict_comp_subset have "p \<in> set (map (\<lambda>(k, v). (to_snake_case k, converted v)) kvs)"
      unfolding kvs'_def by blast
    then obtain k v where kv: "(k, v) \<in> set kvs" and p: "p = (to_snake_case k, converted v)"
      by auto
    from 1[OF kv refl] show ?thesis by (simp add: p to_snake_case_idem)
  qed
  from fixed have "map (\<lambda>(k, v). (to_snake_case k, converted v)) kvs' = kvs'"
    by (intro map_idI)
  moreover have "dict_comp kvs' = kvs'"
    by (rule dict_comp_id) (simp add: kvs'_def dict_comp_distinct)
  ultimately show ?case by (simp add: kvs'_def[symmetric])
qed simp_all



subsection \<open>The walk and the room on the stack\<close>

lemma fold_max_le: "fold max xs a \<le> n \<longleftrightarrow> a \<le> n \<and> (\<forall>x\<in>set xs. x \<le> (n::nat))"
  by (induction xs arbitrary: a) auto

lemma depth_pos: "0 < depth v"
  by (cases v) simp_all

lemma depth_JList: "depth (JList xs) \<le> Suc n \<longleftrightarrow> (\<forall>x\<in>set xs. depth x \<le> n)"
  by (simp add: fold_max_le)

lemma depth_JDict: "depth (JDict kvs) \<le> Suc n \<longleftrightarrow> (\<forall>(k, v)\<in>set kvs. depth v \<le> n)"
  by (auto simp: fold_max_le)


lemma collect_Inr: "(\<And>x. x \<in> set xs \<Longrightarrow> f x = Inr (g x)) \<Longrightarrow> collect (map f xs) = Inr (map g xs)"
  by (induction xs) auto

lemma collect_Inl:
  assumes "\<And>x. x \<in> set xs \<Longrightarrow> f x = Inr (g x) \<or> f x = Inl e"
    and "\<exists>x\<in>set xs. f x = Inl e"
  shows "collect (map f xs) = Inl e"
  using assms
proof (induction xs)
  case Nil
  then show ?case by simp
next
  case (Cons a xs)
  show ?case
  proof (cases "f a")
    case (Inl e')
    with Cons.prems(1)[of a] show ?thesis by simp
  next
    case (Inr y)
    with Cons.prems(2) have "\<exists>x\<in>set xs. f x = Inl e" by auto
    with Cons.IH Cons.prems(1) have "collect (map f xs) = Inl e" by simp
    with Inr show ?thesis by simp
  qed
qed

lemma convert_keys_room:
  "convert_keys_to_snake_case room v
     = (if depth v \<le> room then Inr (converted v) else Inl RecursionError)"
proof (induction room arbitrary: v)
  case 0
  from depth_pos[of v] show ?case by simp
next
  case (Suc room)
  show ?case
  proof (cases v)
    case (JList xs)
    show ?thesis
    proof (cases "\<forall>x\<in>set xs. depth x \<le> room")
      case True
      then have "collect (map (convert_keys_to_snake_case room) xs) = Inr (map converted xs)"
        by (intro collect_Inr) (simp add: Suc)
      with True show ?thesis by (simp add: JList depth_JList del: depth.simps)
    next
      case False
      have "collect (map (convert_keys_to_snake_case room) xs) = Inl RecursionError"
      proof (rule collect_Inl[where g = converted])
        show "convert_keys_to_snake_case room x = Inr (converted x)
            \<or> convert_keys_to_snake_case room x = Inl RecursionError" for x
          by (simp add: Suc)
        from False show "\<exists>x\<in>set xs. convert_keys_to_snake_case room x = Inl RecursionError"
          by (auto simp: Suc)
      qed
      with False show ?thesis by (simp add: JList depth_JList del: depth.simps)
    qed
  next
    case (JDict kvs)
    let ?f = "\<lambda>(k, v). case convert_keys_to_snake_case room v of
               Inl e \<Rightarrow> Inl e
             | Inr v' \<Rightarrow> Inr (to_snake_case k, v')"
    let ?g = "\<lambda>(k, v). (to_snake_case k, converted v)"
    show ?thesis
    proof (cases "\<forall>(k, v)\<in>set kvs. depth v \<le> room")
      case True
      have "collect (map ?f kvs) = Inr (map ?g kvs)"
      proof (rule collect_Inr)
        fix x assume "x \<in> set kvs"
        with True show "?f x = Inr (?g x)" by (cases x) (auto simp: Suc)
      qed
      with True show ?thesis by (simp add: JDict depth_JDict del: depth.simps)
    next
      case False
      have "collect (map ?f kvs) = Inl RecursionError"
      proof (rule collect_Inl[where g = ?g])
        show "?f x = Inr (?g x) \<or> ?f x = Inl RecursionError" for x
          by (cases x) (simp add: Suc)
        from False obtain k v where "(k, v) \<in> set kvs" "\<not> depth v \<le> room" by auto
        then have "(k, v) \<in> set kvs \<and> ?f (k, v) = Inl RecursionError" by (simp add: Suc)
        then show "\<exists>x\<in>set kvs. ?f x = Inl RecursionError" by blast
      qed
      with False show ?thesis by (simp add: JDict depth_JDict del: depth.simps)
    qed
  qed simp_all
qed

lemma depth_converted: "depth (converted v) \<le> depth v"
proof (induction v rule: converted.induct)
  case (1 kvs)
  obtain n where n: "depth (JDict kvs) = Suc n" by simp
  then have le: "\<forall>(k, v)\<in>set kvs. depth v \<le> n"
    using depth_JDict[of kvs n] by simp
  have "\<forall>(k', v')\<in>set (dict_comp (map (\<lambda>(k, v). (to_snake_case k, converted v)) kvs)). depth v' \<le> n"
  proof (clarify)
    fix k' v'
    assume "(k', v') \<in> set (dict_comp (map (\<lambda>(k, v). (to_snake_case k, converted v)) kvs))"
    with dict_comp_subset obtain k v where kv: "(k, v) \<in> set kvs" and v': "v' = converted v"
      by fastforce
    from 1[OF kv refl] le kv v' show "depth v' \<le> n" by fastforce
  qed
  then have "depth (converted (JDict kvs)) \<le> Suc n"
    by (simp only: converted.simps depth_JDict)
  with n show ?case by simp
next
  case (2 xs)
  obtain n where n: "depth (JList xs) = Suc n" by simp
  then have "\<forall>x\<in>set xs. depth x \<le> n" using depth_JList[of xs n] by simp
  with 2 have "\<forall>x\<in>set (map converted xs). depth x \<le> n" by fastforce
  then have "depth (converted (JList xs)) \<le> Suc n"
    by (simp only: converted.simps depth_JList)
  with n show ?case by simp
qed simp_all

lemma convert_keys_twice:
  "(case convert_keys_to_snake_case room v of
      Inl e \<Rightarrow> Inl e
    | Inr w \<Rightarrow> convert_keys_to_snake_case room w)
   = convert_keys_to_snake_case room v"
proof (cases "depth v \<le> room")
  case True
  with depth_converted[of v] have "depth (converted v) \<le> room" by simp
  with True show ?thesis by (simp add: convert_keys_room convert_keys_idem)
next
  case False
  then show ?thesis by (simp add: convert_keys_room)
qed

text \<open>
  Claim C10. \<open>_to_snake_case\<close> is idempotent, because no character of its result is a
  capital \<open>[A-Z]\<close>; and \<open>_convert_keys_to_snake_case\<close> is idempotent on every JSON value:
  applied to its own outcome, with the same room on the stack, it has the outcome of one
  application (the value returned, or the exception raised), and the value it returns is
  converted to itself.
\<close>

theorem snake_case_idempotent:
  "to_snake_case (to_snake_case s) = to_snake_case s
   \<and> list_all (\<lambda>c. \<not> is_upper c) (to_snake_case s)
   \<and> (case convert_keys_to_snake_case room v of
         Inl e \<Rightarrow> Inl e
       | Inr w \<Rightarrow> convert_keys_to_snake_case room w)
      = convert_keys_to_snake_case room v
   \<and> converted (converted v) = converted v"
  using to_snake_case_no_upper[of s]
  by (simp add: to_snake_case_idem convert_keys_idem convert_keys_twice list_all_iff)

theorem snake_case_idempotent_witness:
  "to_snake_case (to_snake_case ''isChorus'') = ''is_chorus''
   \<and> convert_keys_to_snake_case 4
        (JDict [(''aB'', JInt 1), (''a_b'', JList [JDict [(''revisionId'', JInt 2)]])])
     = Inr (JDict [(''a_b'', JList [JDict [(''revision_id'', JInt 2)]])])
   \<and> convert_keys_to_snake_case 4 (JDict [(''a_b'', JList [JDict [(''revision_id'', JInt 2)]])])
     = Inr (JDict [(''a_b'', JList [JDict [(''revision_id'', JInt 2)]])])"
proof -
  have a: "to_snake_case ''isChorus'' = ''is_chorus''" by code_simp
  have b: "convert_keys_to_snake_case 4
        (JDict [(''aB'', JInt 1), (''a_b'', JList [JDict [(''revisionId'', JInt 2)]])])
     = Inr (JDict [(''a_b'', JList [JDict [(''revision_id'', JInt 2)]])])" by code_simp
  from snake_case_idempotent[of "''isChorus''" 4
      "JDict [(''aB'', JInt 1), (''a_b'', JList [JDict [(''revisionId'', JInt 2)]])]"]
  show ?thesis by (simp only: a b sum.case)
qed





section \<open>Properties of \<open>_from_dict\<close>\<close>




lemma from_dict_Dataclass:
  "from_dict (Dataclass cls flds) (JDict items) =
     (case from_dict_loop flds items [] of
        Inl e \<Rightarrow> Inl e
      | Inr kwargs \<Rightarrow> dataclass_init cls flds kwargs)"
  by (simp add: from_dict.simps(1) is_dataclass_def)

lemma from_dict_no_items:
  "\<not> is_dict data \<Longrightarrow> from_dict (Dataclass cls flds) data = Inl AttributeError"
  by (cases data) (simp_all add: from_dict.simps(1) is_dataclass_def is_dict_def)

lemma from_dict_InstanceOf:
  "from_dict (InstanceOf cls flds) (JDict items) =
     (case from_dict_loop flds items [] of
        Inl e \<Rightarrow> Inl e
      | Inr kwargs \<Rightarrow> Inl (TypeError (NotCallable cls)))"
  by (simp add: from_dict.simps(1) is_dataclass_def)

lemma from_dict_instance_no_items:
  "\<not> is_dict data \<Longrightarrow> from_dict (InstanceOf cls flds) data = Inl AttributeError"
  by (cases data) (simp_all add: from_dict.simps(1) is_dataclass_def is_dict_def)

lemma list_element_type_dataclass: "list_element_type t = Some a \<Longrightarrow> is_dataclass a \<and> t = ListOf a"
  by (auto simp: list_element_type_def split: pytype.splits if_splits)

lemma is_dataclass_no_element: "is_dataclass_type t \<Longrightarrow> list_element_type t = None"
  by (auto simp: list_element_type_def is_dataclass_type_def split: pytype.splits)

lemma is_dataclass_type_dataclass: "is_dataclass_type t \<Longrightarrow> is_dataclass t"
  by (auto simp: is_dataclass_def is_dataclass_type_def split: pytype.splits)

lemma field_types_None: "map_of (field_types flds) name = None \<longleftrightarrow> name \<notin> fst ` set flds"
proof -
  have "fst ` set (map (\<lambda>(n, t, d). (n, t)) flds) = fst ` set flds" by force
  then show ?thesis
    by (simp add: field_types_def map_of_eq_None_iff dict_comp_keys del: set_map)
qed

lemma loop_append:
  "from_dict_loop flds (xs @ ys) kw =
     (case from_dict_loop flds xs kw of
        Inl e \<Rightarrow> Inl e
      | Inr kw1 \<Rightarrow> from_dict_loop flds ys kw1)"
proof (induction xs arbitrary: kw)
  case Nil
  then show ?case by simp
next
  case (Cons x xs)
  obtain name v where x: "x = (name, v)" by (cases x)
  show ?case unfolding x
    by (simp add: Cons.IH split: option.splits sum.splits json.splits)
qed

lemma loop_preserves:
  "from_dict_loop flds items kw = Inr kw' \<Longrightarrow> name \<notin> fst ` set items \<Longrightarrow>
     map_of kw' name = map_of kw name"
proof (induction items arbitrary: kw)
  case Nil
  then show ?case by simp
next
  case (Cons x xs)
  obtain n v where x: "x = (n, v)" by (cases x)
  from Cons.prems(2) have ne: "n \<noteq> name" and rest: "name \<notin> fst ` set xs" by (auto simp: x)
  from Cons.prems(1) obtain kw1 where k1: "from_dict_loop flds xs kw1 = Inr kw'"
    and k2: "map_of kw1 name = map_of kw name"
    using ne unfolding x
    by (auto simp: map_of_setitem split: option.splits sum.splits json.splits if_splits)
  from Cons.IH[OF k1 rest] k2 show ?case by simp
qed

lemma loop_skip:
  assumes "map_of (field_types flds) name = None
           \<or> (\<exists>ft. map_of (field_types flds) name = Some ft
                \<and> ((list_element_type ft \<noteq> None \<and> \<not> is_list v) \<or> (is_dataclass_type ft \<and> \<not> is_dict v)))"
  shows "from_dict_loop flds ((name, v) # rest) kw = from_dict_loop flds rest kw"
  using assms
  by (cases v) (auto simp: is_list_def is_dict_def is_dataclass_no_element split: option.splits)

lemma loop_skip_middle:
  assumes "map_of (field_types flds) name = None
           \<or> (\<exists>ft. map_of (field_types flds) name = Some ft
                \<and> ((list_element_type ft \<noteq> None \<and> \<not> is_list v) \<or> (is_dataclass_type ft \<and> \<not> is_dict v)))"
  shows "from_dict_loop flds (xs @ (name, v) # ys) kw = from_dict_loop flds (xs @ ys) kw"
  by (simp only: loop_append[of flds xs] loop_skip[OF assms])

lemma loop_nested:
  assumes "from_dict_loop flds items kw = Inr kw'" "distinct (map fst items)"
    "(name, JDict d) \<in> set items" "map_of (field_types flds) name = Some ft" "is_dataclass_type ft"
  shows "\<exists>a. from_dict ft (JDict d) = Inr a \<and> map_of kw' name = Some a"
proof -
  from assms(3) obtain xs ys where items: "items = xs @ (name, JDict d) # ys"
    by (auto dest: split_list)
  with assms(2) have fresh: "name \<notin> fst ` set ys" by auto
  from assms(1) obtain kw1 where "from_dict_loop flds xs kw = Inr kw1"
    and "from_dict_loop flds ((name, JDict d) # ys) kw1 = Inr kw'"
    unfolding items loop_append[of flds xs] by (auto split: sum.splits)
  then obtain a where a: "from_dict ft (JDict d) = Inr a"
    and rest: "from_dict_loop flds ys (setitem kw1 name a) = Inr kw'"
    using assms(4,5) by (auto simp: is_dataclass_no_element split: sum.splits)
  from loop_preserves[OF rest fresh] a show ?thesis by (simp add: map_of_setitem)
qed

lemma loop_list:
  assumes "from_dict_loop flds items kw = Inr kw'" "distinct (map fst items)"
    "(name, JList vs) \<in> set items" "map_of (field_types flds) name = Some ft"
    "list_element_type ft = Some et"
  shows "\<exists>rs. from_dict_each et vs = Inr rs \<and> map_of kw' name = Some (PyList rs)"
proof -
  from assms(3) obtain xs ys where items: "items = xs @ (name, JList vs) # ys"
    by (auto dest: split_list)
  with assms(2) have fresh: "name \<notin> fst ` set ys" by auto
  from assms(1) obtain kw1 where "from_dict_loop flds xs kw = Inr kw1"
    and "from_dict_loop flds ((name, JList vs) # ys) kw1 = Inr kw'"
    unfolding items loop_append[of flds xs] by (auto split: sum.splits)
  then obtain rs where a: "from_dict_each et vs = Inr rs"
    and rest: "from_dict_loop flds ys (setitem kw1 name (PyList rs)) = Inr kw'"
    using assms(4,5) by (auto split: sum.splits)
  from loop_preserves[OF rest fresh] a show ?thesis by (simp add: map_of_setitem)
qed

lemma each_Cons:
  "from_dict_each model (v # vs) = Inr rs \<longleftrightarrow>
     (\<exists>r rs'. rs = r # rs' \<and> from_dict model v = Inr r \<and> from_dict_each model vs = Inr rs')"
  by (auto split: sum.splits)

lemma each_Inr:
  "from_dict_each model vs = Inr rs \<longleftrightarrow>
     length rs = length vs \<and> (\<forall>i<length vs. from_dict model (vs ! i) = Inr (rs ! i))"
proof (induction vs arbitrary: rs)
  case Nil
  then show ?case by auto
next
  case (Cons v vs)
  show ?case
  proof (cases rs)
    case Nil
    then show ?thesis by (simp add: each_Cons del: from_dict_each.simps)
  next
    case (Cons r rs')
    have "(\<forall>i<Suc (length vs). from_dict model ((v # vs) ! i) = Inr ((r # rs') ! i))
        \<longleftrightarrow> from_dict model v = Inr r \<and> (\<forall>i<length vs. from_dict model (vs ! i) = Inr (rs' ! i))"
      by (simp add: All_less_Suc2)
    then show ?thesis unfolding Cons each_Cons
      by (simp add: Cons.IH del: from_dict_each.simps) blast
  qed
qed

lemma attribute_key: "attribute kw f = Some p \<Longrightarrow> fst p = fst f"
  by (cases f) (auto simp: attribute_def split: option.splits)

lemma attributes_keys: "fst ` set (List.map_filter (attribute kw) flds) \<subseteq> fst ` set flds"
  by (induction flds) (auto simp: List.map_filter_simps dest: attribute_key split: option.splits)

lemma attributes_given:
  "map_of kw name = Some a \<Longrightarrow> name \<in> fst ` set flds \<Longrightarrow>
     map_of (List.map_filter (attribute kw) flds) name = Some a"
proof (induction flds)
  case Nil
  then show ?case by simp
next
  case (Cons f flds)
  obtain n t d where f: "f = (n, t, d)" by (cases f)
  show ?case
  proof (cases "n = name")
    case True
    with Cons.prems(1) show ?thesis by (simp add: f List.map_filter_simps attribute_def)
  next
    case False
    with Cons show ?thesis
      by (auto simp: f List.map_filter_simps attribute_def split: option.splits)
  qed
qed

lemma attributes_default:
  "distinct (map fst flds) \<Longrightarrow> (name, t, d) \<in> set flds \<Longrightarrow> map_of kw name = None \<Longrightarrow>
     map_of (List.map_filter (attribute kw) flds) name = d"
proof (induction flds)
  case Nil
  then show ?case by simp
next
  case (Cons f flds)
  obtain n t' d' where f: "f = (n, t', d')" by (cases f)
  show ?case
  proof (cases "n = name")
    case True
    with Cons.prems(1,2) have same: "d' = d" and out: "name \<notin> fst ` set flds"
      by (auto simp: f rev_image_eqI)
    from out attributes_keys[of kw flds]
    have none: "map_of (List.map_filter (attribute kw) flds) name = None"
      by (auto simp: map_of_eq_None_iff)
    have here: "attribute kw f = map_option (Pair name) d"
      using True same Cons.prems(3) by (simp add: f attribute_def)
    show ?thesis
      by (cases d) (simp_all add: List.map_filter_simps here none)
  next
    case False
    have other: "\<And>p. attribute kw f = Some p \<Longrightarrow> fst p \<noteq> name"
      using False attribute_key[of kw f] by (auto simp: f)
    from False Cons.prems have "distinct (map fst flds)" "(name, t, d) \<in> set flds"
      by (auto simp: f)
    from Cons.IH[OF this Cons.prems(3)] other show ?thesis
      by (cases "attribute kw f") (auto simp: List.map_filter_simps)
  qed
qed

lemma init_Inr:
  "dataclass_init cls flds kw = Inr r \<Longrightarrow>
     r = Instance cls (List.map_filter (attribute kw) flds) \<and> missing_arguments flds kw = []"
  by (auto simp: dataclass_init_def split: if_splits)

lemma init_missing:
  "(name, t, None) \<in> set flds \<Longrightarrow> map_of kw name = None \<Longrightarrow>
     dataclass_init cls flds kw = Inl (TypeError (MissingArguments cls (missing_arguments flds kw)))
     \<and> name \<in> set (missing_arguments flds kw)"
proof -
  assume a: "(name, t, None) \<in> set flds" "map_of kw name = None"
  then have "name \<in> set (missing_arguments flds kw)"
    by (force simp: missing_arguments_def)
  then show ?thesis by (auto simp: dataclass_init_def)
qed

lemma init_construction_error: "dataclass_init cls flds kw = Inl e \<Longrightarrow> construction_error e"
  by (auto simp: dataclass_init_def construction_error_def split: if_splits)

lemma errors_construction:
  "(is_dataclass model \<longrightarrow> from_dict model data = Inl e \<longrightarrow> construction_error e)"
  "(from_dict_loop flds items kw = Inl e \<longrightarrow> construction_error e)"
  "(is_dataclass model' \<longrightarrow> from_dict_each model' vs = Inl e \<longrightarrow> construction_error e)"
proof (induction model data and flds items kw and model' vs rule: from_dict_from_dict_loop_from_dict_each.induct)
  case (1 model data)
  show ?case
  proof (intro impI)
    assume dc: "is_dataclass model" and err: "from_dict model data = Inl e"
    then consider (a_class) cls flds where "model = Dataclass cls flds"
      | (an_object) cls flds where "model = InstanceOf cls flds"
      by (cases model) (auto simp: is_dataclass_def)
    then show "construction_error e"
    proof cases
      case m: a_class
      show ?thesis
      proof (cases data)
        case (JDict items)
        from err have "from_dict_loop flds items [] = Inl e
            \<or> (\<exists>kwargs. dataclass_init cls flds kwargs = Inl e)"
          unfolding m JDict from_dict_Dataclass by (auto split: sum.splits)
        with 1(1)[OF _ m JDict] dc show ?thesis
          by (auto dest: init_construction_error)
      qed (use err m in \<open>auto simp: from_dict_no_items is_dict_def construction_error_def\<close>)
    next
      case m: an_object
      show ?thesis
      proof (cases data)
        case (JDict items)
        from err have "from_dict_loop flds items [] = Inl e \<or> e = TypeError (NotCallable cls)"
          unfolding m JDict from_dict_InstanceOf by (auto split: sum.splits)
        with 1(2)[OF _ m JDict] dc show ?thesis
          by (auto simp: construction_error_def)
      qed (use err m in \<open>auto simp: from_dict_instance_no_items is_dict_def construction_error_def\<close>)
    qed
  qed
next
  case (2 flds kwargs)
  then show ?case by simp
next
  case (3 flds name v rest kwargs)
  then show ?case
    by (auto split: option.splits sum.splits json.splits if_splits)
       (blast dest: list_element_type_dataclass is_dataclass_type_dataclass)+
next
  case (4 model)
  then show ?case by simp
next
  case (5 model item items)
  then show ?case by (auto split: sum.splits)
qed

lemma field_types_declared:
  "map_of (field_types flds) name = Some ft \<Longrightarrow> name \<in> fst ` set flds"
  using field_types_None[of flds name] by auto

lemma from_dict_attribute:
  assumes "from_dict (Dataclass cls flds) (JDict items) = Inr r"
  obtains kw where "from_dict_loop flds items [] = Inr kw"
    and "r = Instance cls (List.map_filter (attribute kw) flds)"
proof -
  from assms obtain kw where k: "from_dict_loop flds items [] = Inr kw"
    and i: "dataclass_init cls flds kw = Inr r"
    unfolding from_dict_Dataclass by (auto split: sum.splits)
  from init_Inr[OF i] k that show ?thesis by blast
qed

lemma from_dict_skip:
  assumes "map_of (field_types flds) name = None
           \<or> (\<exists>ft. map_of (field_types flds) name = Some ft
                \<and> ((list_element_type ft \<noteq> None \<and> \<not> is_list v) \<or> (is_dataclass_type ft \<and> \<not> is_dict v)))"
  shows "from_dict (Dataclass cls flds) (JDict (xs @ (name, v) # ys))
       = from_dict (Dataclass cls flds) (JDict (xs @ ys))"
  unfolding from_dict_Dataclass loop_skip_middle[OF assms] ..

lemma from_dict_nested:
  assumes "from_dict (Dataclass cls flds) (JDict items) = Inr r" "distinct (map fst items)"
    "(f, JDict d) \<in> set items" "map_of (field_types flds) f = Some ft" "is_dataclass_type ft"
  shows "\<exists>a. from_dict ft (JDict d) = Inr a \<and> getattr r f = Some a"
proof -
  from assms(1) obtain kw where k: "from_dict_loop flds items [] = Inr kw"
    and r: "r = Instance cls (List.map_filter (attribute kw) flds)"
    by (rule from_dict_attribute)
  from loop_nested[OF k assms(2-5)] obtain a where a: "from_dict ft (JDict d) = Inr a"
    and m: "map_of kw f = Some a" by blast
  from attributes_given[OF m field_types_declared[OF assms(4)]] a r show ?thesis
    by (simp add: getattr_def)
qed

lemma from_dict_list:
  assumes "from_dict (Dataclass cls flds) (JDict items) = Inr r" "distinct (map fst items)"
    "(f, JList vs) \<in> set items" "map_of (field_types flds) f = Some ft"
    "list_element_type ft = Some et"
  shows "\<exists>rs. from_dict_each et vs = Inr rs \<and> getattr r f = Some (PyList rs)"
proof -
  from assms(1) obtain kw where k: "from_dict_loop flds items [] = Inr kw"
    and r: "r = Instance cls (List.map_filter (attribute kw) flds)"
    by (rule from_dict_attribute)
  from loop_list[OF k assms(2-5)] obtain rs where a: "from_dict_each et vs = Inr rs"
    and m: "map_of kw f = Some (PyList rs)" by blast
  from attributes_given[OF m field_types_declared[OF assms(4)]] a r show ?thesis
    by (simp add: getattr_def)
qed

lemma each_Inl: "from_dict_each model vs = Inl e \<Longrightarrow> \<exists>item\<in>set vs. from_dict model item = Inl e"
  by (induction vs) (auto split: sum.splits)

lemma loop_error_origin:
  "from_dict_loop flds items kw = Inl e \<Longrightarrow>
     \<exists>name v ft. (name, v) \<in> set items \<and> map_of (field_types flds) name = Some ft \<and>
        ((is_dataclass_type ft \<and> is_dict v \<and> from_dict ft v = Inl e)
         \<or> (\<exists>et vs. list_element_type ft = Some et \<and> v = JList vs \<and> from_dict_each et vs = Inl e))"
proof (induction items arbitrary: kw)
  case Nil
  then show ?case by simp
next
  case (Cons x items)
  obtain n v where x: "x = (n, v)" by (cases x)
  from Cons.prems have "(\<exists>kw1. from_dict_loop flds items kw1 = Inl e)
      \<or> (\<exists>ft. map_of (field_types flds) n = Some ft \<and>
           ((is_dataclass_type ft \<and> is_dict v \<and> from_dict ft v = Inl e)
            \<or> (\<exists>et vs. list_element_type ft = Some et \<and> v = JList vs \<and> from_dict_each et vs = Inl e)))"
    unfolding x
    by (auto simp: is_dict_def split: option.splits sum.splits json.splits if_splits)
  then show ?case
  proof
    assume "\<exists>kw1. from_dict_loop flds items kw1 = Inl e"
    then obtain kw1 where "from_dict_loop flds items kw1 = Inl e" ..
    from Cons.IH[OF this] obtain name v' ft where
      "(name, v') \<in> set items" "map_of (field_types flds) name = Some ft"
      "(is_dataclass_type ft \<and> is_dict v' \<and> from_dict ft v' = Inl e)
         \<or> (\<exists>et vs. list_element_type ft = Some et \<and> v' = JList vs \<and> from_dict_each et vs = Inl e)"
      by blast
    then show ?thesis by (intro exI[of _ name] exI[of _ v'] exI[of _ ft]) simp
  next
    assume "\<exists>ft. map_of (field_types flds) n = Some ft \<and>
           ((is_dataclass_type ft \<and> is_dict v \<and> from_dict ft v = Inl e)
            \<or> (\<exists>et vs. list_element_type ft = Some et \<and> v = JList vs \<and> from_dict_each et vs = Inl e))"
    then show ?thesis unfolding x by (intro exI[of _ n] exI[of _ v]) auto
  qed
qed

lemma from_dict_missing:
  assumes "(f, t, None) \<in> set flds" "f \<notin> fst ` set items"
  shows "(\<exists>kw. from_dict_loop flds items [] = Inr kw
            \<and> from_dict (Dataclass cls flds) (JDict items)
                = Inl (TypeError (MissingArguments cls (missing_arguments flds kw)))
            \<and> f \<in> set (missing_arguments flds kw))
         \<or> (\<exists>e. from_dict_loop flds items [] = Inl e
            \<and> from_dict (Dataclass cls flds) (JDict items) = Inl e)"
proof (cases "from_dict_loop flds items []")
  case (Inl e)
  then show ?thesis by (simp add: from_dict_Dataclass)
next
  case (Inr kw)
  from loop_preserves[OF Inr assms(2)] have "map_of kw f = None" by simp
  from init_missing[OF assms(1) this, of cls] Inr show ?thesis
    by (simp add: from_dict_Dataclass)
qed

text \<open>
  Claim C1. \<open>_from_dict\<close> ignores every key of the mapping that is no field of the
  dataclass: the result with such an item, anywhere in the mapping, is the result without
  it. For a field annotated with a dataclass whose value is a mapping, the attribute of
  the record built is the record that \<open>_from_dict\<close> builds for that dataclass from that
  mapping. For \<open>Song\<close>: from every mapping that has the item \<open>"artist": {"id": 2, "name": "A"}\<close>
  and from which a \<open>Song\<close> is built, the \<open>artist\<close> attribute is \<open>Artist(id=2, name="A")\<close>; a
  \<open>Song\<close> is built from the mapping of the specification completed with the other fields
  of \<open>Song\<close>, and its unknown key changes nothing.
\<close>

theorem from_dict_unknown_key_and_nested_record:
  "(name \<notin> fst ` set flds \<longrightarrow>
      from_dict (Dataclass cls flds) (JDict (xs @ (name, v) # ys))
        = from_dict (Dataclass cls flds) (JDict (xs @ ys)))
   \<and> (distinct (map fst items) \<and> (f, JDict d) \<in> set items
        \<and> map_of (field_types flds) f = Some ft \<and> is_dataclass_type ft
        \<and> from_dict (Dataclass cls flds) (JDict items) = Inr r \<longrightarrow>
      (\<exists>a. from_dict ft (JDict d) = Inr a \<and> getattr r f = Some a))
   \<and> (distinct (map fst items') 
        \<and> (''artist'', JDict [(''id'', JInt 2), (''name'', JStr ''A'')]) \<in> set items'
        \<and> from_dict Song (JDict items') = Inr r' \<longrightarrow>
      getattr r' ''artist''
        = Some (Instance ''Artist'' [(''id'', Raw (JInt 2)), (''name'', Raw (JStr ''A''))]))
   \<and> from_dict Song (JDict
        [(''id'', JInt 1), (''title'', JStr ''T''),
         (''artist'', JDict [(''id'', JInt 2), (''name'', JStr ''A'')]),
         (''unused_future_field'', JInt 1),
         (''url'', JStr ''u''), (''permalink'', JStr ''p''), (''duration'', JFloat (Finite 3 6)),
         (''code'', JStr ''c''), (''rms_amplitude'', JFloat (Finite 1 (- 3))),
         (''created_at'', JStr ''x''), (''updated_at'', JStr ''y''), (''recognized_at'', JStr ''z'')])
      = Inr (Instance ''Song''
        [(''id'', Raw (JInt 1)), (''title'', Raw (JStr ''T'')),
         (''url'', Raw (JStr ''u'')), (''permalink'', Raw (JStr ''p'')),
         (''artist'', Instance ''Artist'' [(''id'', Raw (JInt 2)), (''name'', Raw (JStr ''A''))]),
         (''duration'', Raw (JFloat (Finite 3 6))), (''code'', Raw (JStr ''c'')),
         (''rms_amplitude'', Raw (JFloat (Finite 1 (- 3)))),
         (''created_at'', Raw (JStr ''x'')), (''updated_at'', Raw (JStr ''y'')),
         (''recognized_at'', Raw (JStr ''z''))])"
proof -
  have unknown: "name \<notin> fst ` set flds \<longrightarrow>
      from_dict (Dataclass cls flds) (JDict (xs @ (name, v) # ys))
        = from_dict (Dataclass cls flds) (JDict (xs @ ys))"
    using from_dict_skip[of flds name v cls xs ys] by (simp add: field_types_None)
  have nested: "distinct (map fst items) \<and> (f, JDict d) \<in> set items
        \<and> map_of (field_types flds) f = Some ft \<and> is_dataclass_type ft
        \<and> from_dict (Dataclass cls flds) (JDict items) = Inr r \<longrightarrow>
      (\<exists>a. from_dict ft (JDict d) = Inr a \<and> getattr r f = Some a)"
    using from_dict_nested[of cls flds items r f d ft] by blast
  have artist: "from_dict Artist (JDict [(''id'', JInt 2), (''name'', JStr ''A'')])
      = Inr (Instance ''Artist'' [(''id'', Raw (JInt 2)), (''name'', Raw (JStr ''A''))])"
    by code_simp
  have ft: "map_of (field_types (case Song of Dataclass c fs \<Rightarrow> fs | _ \<Rightarrow> [])) ''artist'' = Some Artist"
    by code_simp
  have dc: "is_dataclass_type Artist" by code_simp
  have song: "distinct (map fst items') 
        \<and> (''artist'', JDict [(''id'', JInt 2), (''name'', JStr ''A'')]) \<in> set items'
        \<and> from_dict Song (JDict items') = Inr r' \<longrightarrow>
      getattr r' ''artist''
        = Some (Instance ''Artist'' [(''id'', Raw (JInt 2)), (''name'', Raw (JStr ''A''))])"
  proof (intro impI, elim conjE)
    assume a: "distinct (map fst items')"
      "(''artist'', JDict [(''id'', JInt 2), (''name'', JStr ''A'')]) \<in> set items'"
      "from_dict Song (JDict items') = Inr r'"
    from from_dict_nested[OF a(3)[unfolded Song_def] a(1,2) ft[unfolded Song_def, simplified] dc]
    show "getattr r' ''artist''
        = Some (Instance ''Artist'' [(''id'', Raw (JInt 2)), (''name'', Raw (JStr ''A''))])"
      by (simp add: artist)
  qed
  have example: "from_dict Song (JDict
        [(''id'', JInt 1), (''title'', JStr ''T''),
         (''artist'', JDict [(''id'', JInt 2), (''name'', JStr ''A'')]),
         (''unused_future_field'', JInt 1),
         (''url'', JStr ''u''), (''permalink'', JStr ''p''), (''duration'', JFloat (Finite 3 6)),
         (''code'', JStr ''c''), (''rms_amplitude'', JFloat (Finite 1 (- 3))),
         (''created_at'', JStr ''x''), (''updated_at'', JStr ''y''), (''recognized_at'', JStr ''z'')])
      = Inr (Instance ''Song''
        [(''id'', Raw (JInt 1)), (''title'', Raw (JStr ''T'')),
         (''url'', Raw (JStr ''u'')), (''permalink'', Raw (JStr ''p'')),
         (''artist'', Instance ''Artist'' [(''id'', Raw (JInt 2)), (''name'', Raw (JStr ''A''))]),
         (''duration'', Raw (JFloat (Finite 3 6))), (''code'', Raw (JStr ''c'')),
         (''rms_amplitude'', Raw (JFloat (Finite 1 (- 3)))),
         (''created_at'', Raw (JStr ''x'')), (''updated_at'', Raw (JStr ''y'')),
         (''recognized_at'', Raw (JStr ''z''))])"
    by code_simp
  from unknown nested song example show ?thesis by (intro conjI)
qed


theorem from_dict_unknown_key_and_nested_record_witness:
  "''unused_future_field'' \<notin> fst ` set [(''id'', Other ''int'', None :: pyval option), (''name'', Other ''str'', None)]
   \<and> from_dict Artist (JDict [(''id'', JInt 2), (''unused_future_field'', JInt 1), (''name'', JStr ''A'')])
       = from_dict Artist (JDict [(''id'', JInt 2), (''name'', JStr ''A'')])
   \<and> from_dict Artist (JDict [(''id'', JInt 2), (''name'', JStr ''A'')])
       = Inr (Instance ''Artist'' [(''id'', Raw (JInt 2)), (''name'', Raw (JStr ''A''))])"
proof -
  have h: "''unused_future_field'' \<notin> fst ` set [(''id'', Other ''int'', None :: pyval option), (''name'', Other ''str'', None)]"
    by simp
  from from_dict_unknown_key_and_nested_record[where name = "''unused_future_field''"
      and flds = "[(''id'', Other ''int'', None), (''name'', Other ''str'', None)]"
      and cls = "''Artist''" and xs = "[(''id'', JInt 2)]" and v = "JInt 1"
      and ys = "[(''name'', JStr ''A'')]"] h
  have "from_dict Artist (JDict [(''id'', JInt 2), (''unused_future_field'', JInt 1), (''name'', JStr ''A'')])
       = from_dict Artist (JDict [(''id'', JInt 2), (''name'', JStr ''A'')])"
    by (simp add: Artist_def)
  moreover have "from_dict Artist (JDict [(''id'', JInt 2), (''name'', JStr ''A'')])
       = Inr (Instance ''Artist'' [(''id'', Raw (JInt 2)), (''name'', Raw (JStr ''A''))])"
    by code_simp
  ultimately show ?thesis using h by blast
qed

lemma list_element_type_ListOf: "is_dataclass et \<Longrightarrow> list_element_type (ListOf et) = Some et"
  by (simp add: list_element_type_def)

text \<open>
  Claim C4. For a field annotated \<open>list[X]\<close>, \<open>X\<close> a dataclass, whose value is a list,
  the attribute of the record built is a new list of the same length whose i-th element is
  what \<open>_from_dict\<close> builds for \<open>X\<close> from the i-th element of the value; the list
  comprehension succeeds exactly with that list. For \<open>BeatInfo\<close>, the \<open>beats\<close> of the result
  are the beats of the input, in the order of the input (here 0, 2, 1: nothing is sorted).
\<close>

theorem from_dict_list_of_records:
  "(distinct (map fst items) \<and> (f, JList vs) \<in> set items
        \<and> map_of (field_types flds) f = Some (ListOf et) \<and> is_dataclass et
        \<and> from_dict (Dataclass cls flds) (JDict items) = Inr r \<longrightarrow>
      (\<exists>rs. getattr r f = Some (PyList rs) \<and> length rs = length vs
            \<and> (\<forall>i<length vs. from_dict et (vs ! i) = Inr (rs ! i))))
   \<and> (from_dict_each et vs = Inr rs' \<longleftrightarrow>
        length rs' = length vs \<and> (\<forall>i<length vs. from_dict et (vs ! i) = Inr (rs' ! i)))
   \<and> from_dict BeatInfo (JDict [(''beats'', JList
        [JDict [(''index'', JInt 0), (''start'', JInt 0), (''count'', JInt 1), (''position'', JInt 0), (''bpm'', JInt 120)],
         JDict [(''index'', JInt 2), (''start'', JInt 1000), (''count'', JInt 1), (''position'', JInt 2), (''bpm'', JInt 120)],
         JDict [(''index'', JInt 1), (''start'', JInt 500), (''count'', JInt 1), (''position'', JInt 1), (''bpm'', JInt 120)]])])
      = Inr (Instance ''BeatInfo'' [(''beats'', PyList
        [Instance ''Beat'' [(''index'', Raw (JInt 0)), (''start'', Raw (JInt 0)), (''count'', Raw (JInt 1)), (''position'', Raw (JInt 0)), (''bpm'', Raw (JInt 120))],
         Instance ''Beat'' [(''index'', Raw (JInt 2)), (''start'', Raw (JInt 1000)), (''count'', Raw (JInt 1)), (''position'', Raw (JInt 2)), (''bpm'', Raw (JInt 120))],
         Instance ''Beat'' [(''index'', Raw (JInt 1)), (''start'', Raw (JInt 500)), (''count'', Raw (JInt 1)), (''position'', Raw (JInt 1)), (''bpm'', Raw (JInt 120))]])])"
proof -
  have a: "distinct (map fst items) \<and> (f, JList vs) \<in> set items
        \<and> map_of (field_types flds) f = Some (ListOf et) \<and> is_dataclass et
        \<and> from_dict (Dataclass cls flds) (JDict items) = Inr r \<longrightarrow>
      (\<exists>rs. getattr r f = Some (PyList rs) \<and> length rs = length vs
            \<and> (\<forall>i<length vs. from_dict et (vs ! i) = Inr (rs ! i)))"
  proof (intro impI, elim conjE)
    assume h: "distinct (map fst items)" "(f, JList vs) \<in> set items"
      "map_of (field_types flds) f = Some (ListOf et)" "is_dataclass et"
      "from_dict (Dataclass cls flds) (JDict items) = Inr r"
    from from_dict_list[OF h(5,1,2,3) list_element_type_ListOf[OF h(4)]]
    obtain rs where "from_dict_each et vs = Inr rs" "getattr r f = Some (PyList rs)" by blast
    then show "\<exists>rs. getattr r f = Some (PyList rs) \<and> length rs = length vs
            \<and> (\<forall>i<length vs. from_dict et (vs ! i) = Inr (rs ! i))"
      by (auto simp: each_Inr)
  qed
  have c: "from_dict BeatInfo (JDict [(''beats'', JList
        [JDict [(''index'', JInt 0), (''start'', JInt 0), (''count'', JInt 1), (''position'', JInt 0), (''bpm'', JInt 120)],
         JDict [(''index'', JInt 2), (''start'', JInt 1000), (''count'', JInt 1), (''position'', JInt 2), (''bpm'', JInt 120)],
         JDict [(''index'', JInt 1), (''start'', JInt 500), (''count'', JInt 1), (''position'', JInt 1), (''bpm'', JInt 120)]])])
      = Inr (Instance ''BeatInfo'' [(''beats'', PyList
        [Instance ''Beat'' [(''index'', Raw (JInt 0)), (''start'', Raw (JInt 0)), (''count'', Raw (JInt 1)), (''position'', Raw (JInt 0)), (''bpm'', Raw (JInt 120))],
         Instance ''Beat'' [(''index'', Raw (JInt 2)), (''start'', Raw (JInt 1000)), (''count'', Raw (JInt 1)), (''position'', Raw (JInt 2)), (''bpm'', Raw (JInt 120))],
         Instance ''Beat'' [(''index'', Raw (JInt 1)), (''start'', Raw (JInt 500)), (''count'', Raw (JInt 1)), (''position'', Raw (JInt 1)), (''bpm'', Raw (JInt 120))]])])"
    by code_simp
  from a each_Inr[of et vs rs'] c show ?thesis by (intro conjI)
qed

theorem from_dict_list_of_records_witness:
  "from_dict_each Artist [JDict [(''id'', JInt 7), (''name'', JStr ''B'')], JDict [(''id'', JInt 2), (''name'', JStr ''A'')]]
     = Inr [Instance ''Artist'' [(''id'', Raw (JInt 7)), (''name'', Raw (JStr ''B''))],
            Instance ''Artist'' [(''id'', Raw (JInt 2)), (''name'', Raw (JStr ''A''))]]"
proof -
  let ?vs = "[JDict [(''id'', JInt 7), (''name'', JStr ''B'')], JDict [(''id'', JInt 2), (''name'', JStr ''A'')]]"
  let ?rs = "[Instance ''Artist'' [(''id'', Raw (JInt 7)), (''name'', Raw (JStr ''B''))],
              Instance ''Artist'' [(''id'', Raw (JInt 2)), (''name'', Raw (JStr ''A''))]]"
  have 0: "from_dict Artist (?vs ! 0) = Inr (?rs ! 0)" by code_simp
  have 1: "from_dict Artist (?vs ! 1) = Inr (?rs ! 1)" by code_simp
  have "\<forall>i<length ?vs. from_dict Artist (?vs ! i) = Inr (?rs ! i)"
    using 0 1 by (simp add: All_less_Suc2)
  with from_dict_list_of_records[where et = Artist and vs = ?vs and rs' = ?rs]
  show ?thesis by simp
qed




text \<open>
  Claim C7. When the value given for a field annotated with a dataclass is no mapping,
  or the value given for a field annotated with a list of a dataclass is no list,
  \<open>_from_dict\<close> does what it does without that item: the field is left unset and nothing is
  raised for the value. A field that has a default, and is given only such a value,
  has its default in the record built.
\<close>

theorem from_dict_mismatched_value:
  "(map_of (field_types flds) f = Some ft
      \<and> ((is_dataclass_type ft \<and> \<not> is_dict v) \<or> (list_element_type ft \<noteq> None \<and> \<not> is_list v)) \<longrightarrow>
      from_dict (Dataclass cls flds) (JDict (xs @ (f, v) # ys))
        = from_dict (Dataclass cls flds) (JDict (xs @ ys)))
   \<and> (map_of (field_types flds) f = Some ft
      \<and> ((is_dataclass_type ft \<and> \<not> is_dict v) \<or> (list_element_type ft \<noteq> None \<and> \<not> is_list v))
      \<and> distinct (map fst flds) \<and> (f, t, Some dv) \<in> set flds \<and> f \<notin> fst ` set (xs @ ys)
      \<and> from_dict (Dataclass cls flds) (JDict (xs @ (f, v) # ys)) = Inr r \<longrightarrow>
      getattr r f = Some dv)"
proof (intro conjI impI)
  assume "map_of (field_types flds) f = Some ft
      \<and> ((is_dataclass_type ft \<and> \<not> is_dict v) \<or> (list_element_type ft \<noteq> None \<and> \<not> is_list v))"
  then show "from_dict (Dataclass cls flds) (JDict (xs @ (f, v) # ys))
        = from_dict (Dataclass cls flds) (JDict (xs @ ys))"
    by (intro from_dict_skip) blast
next
  assume h: "map_of (field_types flds) f = Some ft
      \<and> ((is_dataclass_type ft \<and> \<not> is_dict v) \<or> (list_element_type ft \<noteq> None \<and> \<not> is_list v))
      \<and> distinct (map fst flds) \<and> (f, t, Some dv) \<in> set flds \<and> f \<notin> fst ` set (xs @ ys)
      \<and> from_dict (Dataclass cls flds) (JDict (xs @ (f, v) # ys)) = Inr r"
  then have "from_dict (Dataclass cls flds) (JDict (xs @ (f, v) # ys))
        = from_dict (Dataclass cls flds) (JDict (xs @ ys))"
    by (intro from_dict_skip) blast
  with h have "from_dict (Dataclass cls flds) (JDict (xs @ ys)) = Inr r" by simp
  then obtain kw where k: "from_dict_loop flds (xs @ ys) [] = Inr kw"
    and r: "r = Instance cls (List.map_filter (attribute kw) flds)"
    by (rule from_dict_attribute)
  from h have fresh: "f \<notin> fst ` set (xs @ ys)" by blast
  from loop_preserves[OF k fresh] have "map_of kw f = None" by simp
  with attributes_default[of flds f t "Some dv" kw] h r show "getattr r f = Some dv"
    by (simp add: getattr_def)
qed

theorem from_dict_mismatched_value_witness:
  "from_dict (Dataclass ''Track''
       [(''title'', Other ''str'', None), (''artist'', Artist, Some (Raw JNull)),
        (''beats'', ListOf Beat, Some (PyList []))])
     (JDict [(''artist'', JInt 5), (''title'', JStr ''T''), (''beats'', JStr ''none'')])
   = Inr (Instance ''Track''
       [(''title'', Raw (JStr ''T'')), (''artist'', Raw JNull), (''beats'', PyList [])])
   \<and> from_dict (Dataclass ''Track''
       [(''title'', Other ''str'', None), (''artist'', Artist, Some (Raw JNull)),
        (''beats'', ListOf Beat, Some (PyList []))])
     (JDict [(''title'', JStr ''T''), (''beats'', JStr ''none'')])
   = Inr (Instance ''Track''
       [(''title'', Raw (JStr ''T'')), (''artist'', Raw JNull), (''beats'', PyList [])])"
proof -
  let ?flds = "[(''title'', Other ''str'', None), (''artist'', Artist, Some (Raw JNull)),
        (''beats'', ListOf Beat, Some (PyList []))]"
  have ft: "map_of (field_types ?flds) ''artist'' = Some Artist" by code_simp
  have dc: "is_dataclass_type Artist" by (simp add: is_dataclass_type_def Artist_def)
  have nd: "\<not> is_dict (JInt 5)" by (simp add: is_dict_def)
  have without: "from_dict (Dataclass ''Track'' ?flds)
       (JDict [(''title'', JStr ''T''), (''beats'', JStr ''none'')])
     = Inr (Instance ''Track''
       [(''title'', Raw (JStr ''T'')), (''artist'', Raw JNull), (''beats'', PyList [])])"
    by code_simp
  from from_dict_mismatched_value[where flds = ?flds and f = "''artist''" and ft = Artist
      and v = "JInt 5" and cls = "''Track''" and xs = "[]"
      and ys = "[(''title'', JStr ''T''), (''beats'', JStr ''none'')]"] ft dc nd
  have "from_dict (Dataclass ''Track'' ?flds)
       (JDict ([] @ (''artist'', JInt 5) # [(''title'', JStr ''T''), (''beats'', JStr ''none'')]))
     = from_dict (Dataclass ''Track'' ?flds)
       (JDict ([] @ [(''title'', JStr ''T''), (''beats'', JStr ''none'')]))"
    by blast
  with without show ?thesis by simp
qed

text \<open>
  Claim C5, as amended. When a field declared without a default is absent from the
  mapping, \<open>_from_dict\<close> never returns a record. Unless building a nested record or a list
  of records from one of the items of the mapping has raised before (that exception then
  propagates), it raises the \<open>TypeError\<close> of the generated \<open>__init__\<close>, which names the
  dataclass and lists the missing fields, this field among them. In both cases the
  exception is a \<open>TypeError\<close> or an \<open>AttributeError\<close>, never the client's
  \<open>SongleApiException\<close>. A dataclass requiring \<open>title\<close>, given a mapping without it, raises
  the error naming \<open>title\<close> and the dataclass.
\<close>

theorem from_dict_missing_field:
  "((f, t, None) \<in> set flds \<and> f \<notin> fst ` set items \<longrightarrow>
      (\<exists>e. from_dict (Dataclass cls flds) (JDict items) = Inl e
         \<and> construction_error e
         \<and> (\<forall>status message. e \<noteq> SongleApiException status message)
         \<and> ((\<exists>names. e = TypeError (MissingArguments cls names) \<and> f \<in> set names)
            \<or> (\<exists>name v ft. (name, v) \<in> set items \<and> map_of (field_types flds) name = Some ft
                 \<and> ((is_dataclass_type ft \<and> is_dict v \<and> from_dict ft v = Inl e)
                    \<or> (\<exists>et vs. list_element_type ft = Some et \<and> v = JList vs
                          \<and> from_dict_each et vs = Inl e))))))
   \<and> ((f, t, None) \<in> set flds \<and> f \<notin> fst ` set items
        \<and> from_dict_loop flds items [] = Inr kwargs \<longrightarrow>
      from_dict (Dataclass cls flds) (JDict items)
        = Inl (TypeError (MissingArguments cls (missing_arguments flds kwargs)))
      \<and> f \<in> set (missing_arguments flds kwargs))
   \<and> from_dict (Dataclass ''Document'' [(''id'', Other ''int'', None), (''title'', Other ''str'', None)])
        (JDict [(''id'', JInt 1)])
      = Inl (TypeError (MissingArguments ''Document'' [''title'']))"
proof (intro conjI impI)
  assume h: "(f, t, None) \<in> set flds \<and> f \<notin> fst ` set items"
  then have a: "(f, t, None) \<in> set flds" and b: "f \<notin> fst ` set items" by blast+
  from from_dict_missing[OF a b, of cls]
  consider (init) kw where "from_dict_loop flds items [] = Inr kw"
      "from_dict (Dataclass cls flds) (JDict items)
         = Inl (TypeError (MissingArguments cls (missing_arguments flds kw)))"
      "f \<in> set (missing_arguments flds kw)"
    | (loop) e where "from_dict_loop flds items [] = Inl e"
      "from_dict (Dataclass cls flds) (JDict items) = Inl e"
    by blast
  then show "\<exists>e. from_dict (Dataclass cls flds) (JDict items) = Inl e
         \<and> construction_error e
         \<and> (\<forall>status message. e \<noteq> SongleApiException status message)
         \<and> ((\<exists>names. e = TypeError (MissingArguments cls names) \<and> f \<in> set names)
            \<or> (\<exists>name v ft. (name, v) \<in> set items \<and> map_of (field_types flds) name = Some ft
                 \<and> ((is_dataclass_type ft \<and> is_dict v \<and> from_dict ft v = Inl e)
                    \<or> (\<exists>et vs. list_element_type ft = Some et \<and> v = JList vs
                          \<and> from_dict_each et vs = Inl e))))"
  proof cases
    case init
    then show ?thesis by (auto simp: construction_error_def)
  next
    case loop
    from errors_construction(2)[of flds items "[]" e] loop(1)
    have ce: "construction_error e" by blast
    then have "\<forall>status message. e \<noteq> SongleApiException status message"
      by (auto simp: construction_error_def)
    with loop_error_origin[OF loop(1)] loop(2) ce show ?thesis by blast
  qed
next
  assume h: "(f, t, None) \<in> set flds \<and> f \<notin> fst ` set items
        \<and> from_dict_loop flds items [] = Inr kwargs"
  then have a: "(f, t, None) \<in> set flds" and b: "f \<notin> fst ` set items"
    and c: "from_dict_loop flds items [] = Inr kwargs" by blast+
  from from_dict_missing[OF a b, of cls] c
  show "from_dict (Dataclass cls flds) (JDict items)
        = Inl (TypeError (MissingArguments cls (missing_arguments flds kwargs)))"
    and "f \<in> set (missing_arguments flds kwargs)"
    by auto
next
  show "from_dict (Dataclass ''Document'' [(''id'', Other ''int'', None), (''title'', Other ''str'', None)])
        (JDict [(''id'', JInt 1)])
      = Inl (TypeError (MissingArguments ''Document'' [''title'']))"
    by code_simp
qed

theorem from_dict_missing_field_witness:
  "from_dict Song (JDict [(''id'', JInt 1), (''artist'', JDict [(''id'', JInt 2), (''name'', JStr ''A'')])])
     = Inl (TypeError (MissingArguments ''Song''
         [''title'', ''url'', ''permalink'', ''duration'', ''code'', ''rms_amplitude'',
          ''created_at'', ''updated_at'', ''recognized_at'']))
   \<and> ''title'' \<in> set [''title'', ''url'', ''permalink'', ''duration'', ''code'', ''rms_amplitude'',
          ''created_at'', ''updated_at'', ''recognized_at'']"
proof -
  let ?flds = "[(''id'', Other ''int'', None), (''title'', Other ''str'', None),
      (''url'', Other ''str'', None), (''permalink'', Other ''str'', None),
      (''artist'', Artist, None), (''duration'', Other ''float'', None),
      (''code'', Other ''str'', None), (''rms_amplitude'', Other ''float'', None),
      (''created_at'', Other ''str'', None), (''updated_at'', Other ''str'', None),
      (''recognized_at'', Other ''str'', None)]"
  let ?items = "[(''id'', JInt 1), (''artist'', JDict [(''id'', JInt 2), (''name'', JStr ''A'')])]"
  let ?kw = "[(''id'', Raw (JInt 1)),
      (''artist'', Instance ''Artist'' [(''id'', Raw (JInt 2)), (''name'', Raw (JStr ''A''))])]"
  have a: "(''title'', Other ''str'', None) \<in> set ?flds" by simp
  have b: "''title'' \<notin> fst ` set ?items" by simp
  have c: "from_dict_loop ?flds ?items [] = Inr ?kw" by code_simp
  have d: "missing_arguments ?flds ?kw = [''title'', ''url'', ''permalink'', ''duration'', ''code'',
      ''rms_amplitude'', ''created_at'', ''updated_at'', ''recognized_at'']" by code_simp
  from from_dict_missing_field[where f = "''title''" and t = "Other ''str''" and flds = ?flds
      and items = ?items and kwargs = ?kw and cls = "''Song''"] a b c
  have "from_dict (Dataclass ''Song'' ?flds) (JDict ?items)
        = Inl (TypeError (MissingArguments ''Song'' (missing_arguments ?flds ?kw)))"
    by blast
  then show ?thesis unfolding d by (simp add: Song_def)
qed

text \<open>
  Claim C5 as it is worded promises the error naming the field and its dataclass for
  every mapping. With \<open>title\<close> (and more) absent, \<open>Song\<close> given \<open>{"artist": {}}\<close> raises the
  error of \<open>Artist\<close>, which names \<open>id\<close> and \<open>name\<close>; and \<open>ChorusInfo\<close>, whose \<open>repeat_segments\<close>
  is absent, given \<open>{"chorus_segments": [1]}\<close> raises \<open>AttributeError\<close>.
\<close>

theorem from_dict_missing_field_counterexample:
  "from_dict Song (JDict [(''artist'', JDict [])])
     = Inl (TypeError (MissingArguments ''Artist'' [''id'', ''name'']))
   \<and> from_dict ChorusInfo (JDict [(''chorus_segments'', JList [JInt 1])]) = Inl AttributeError"
proof -
  have a: "from_dict Song (JDict [(''artist'', JDict [])])
     = Inl (TypeError (MissingArguments ''Artist'' [''id'', ''name'']))" by code_simp
  have b: "from_dict ChorusInfo (JDict [(''chorus_segments'', JList [JInt 1])]) = Inl AttributeError"
    by code_simp
  from a b show ?thesis by (rule conjI)
qed

section \<open>Properties of the client\<close>













end
